theory Spec2Isabelle
  imports Main "HOL-Library.Word"
begin

section \<open>Pool-backed virtual files (pkg/filesystem/virtual/pool_backed_file_allocator.go)\<close>

text \<open>
  The Go type \<open>fileBackedFile\<close> is a record; each method is a function from the
  record to an outcome holding the method's results and the updated record. A method
  that takes \<open>f.lock\<close> holds it over its whole body, so the body is one atomic
  transition of the record; \<open>updateCachedDigest\<close>, \<open>UploadFile\<close> and
  \<open>GetOutputServiceFileStatus\<close> take the lock several times, and their functions
  describe a call during which no other goroutine changes the record. The interleaving of
  several goroutines, where the lock and the wake-up channel matter, is modelled further
  below by the steps of the goroutines.

  Go's \<open>uint\<close> and \<open>uint64\<close> are 64-bit words (the counters wrap), Go's \<open>int\<close> and
  \<open>int64\<close> values that come back from the backing file are integers.
\<close>

subsection \<open>Types declared outside the file\<close>

type_synonym byte = "8 word"
type_synonym uint64 = "64 word"

text \<open>Errors (Go's \<open>error\<close> values) that the file creates or passes on.\<close>

datatype go_error =
    EOF
  | Fault nat
  | NotFound
  | Internal go_error
  | Wrapped go_error

datatype Status = StatusOK | StatusErrIO | StatusErrStale | StatusErrNXIO | StatusErrInval

text \<open>
  \<open>ShareMask\<close> is declared elsewhere in the package. The file looks at a share mask in
  two ways only: \<open>shareAccess.Count()\<close> and \<open>shareAccess&ShareMaskWrite != 0\<close>. A share
  mask is modelled by these two observations.
\<close>

record ShareMask =
  Count :: uint64
  hasShareMaskWrite :: bool

text \<open>
  \<open>Attributes\<close>, \<open>AttributesMask\<close> and \<open>Permissions\<close> are declared elsewhere in the
  package: a set of optional attribute values with one getter and one setter each, and
  two bit masks, modelled as sets of their bits.
\<close>

datatype FileType = FileTypeRegularFile

datatype Permissions = PermissionsRead | PermissionsWrite | PermissionsExecute

datatype AttributesMask =
    AttributesMaskChangeID
  | AttributesMaskFileType
  | AttributesMaskPermissions
  | AttributesMaskSizeBytes

record Attributes =
  attrFileType :: "FileType option"
  attrChangeID :: "uint64 option"
  attrPermissions :: "Permissions set option"
  attrSizeBytes :: "uint64 option"

text \<open>
  Modelled from the spec: the digest package (\<open>digest.Digest\<close>, \<open>digest.BadDigest\<close>,
  \<open>digest.Function\<close>) is not part of the file. A digest is either absent (\<open>BadDigest\<close>)
  or tagged with the identity of the digest function that computed it; a function's
  generator accumulates the bytes written to it and \<open>Sum\<close> returns the digest of these
  bytes, tagged with that function.
\<close>

datatype Digest = BadDigest | Digest nat "byte list" nat

record Function =
  functionIdentity :: nat
  functionHash :: "byte list \<Rightarrow> byte list"

fun UsesDigestFunction :: "Digest \<Rightarrow> Function \<Rightarrow> bool" where
  "UsesDigestFunction BadDigest fn = False"
| "UsesDigestFunction (Digest i h n) fn = (i = functionIdentity fn)"

definition generatorSum :: "Function \<Rightarrow> byte list \<Rightarrow> Digest" where
  "generatorSum fn bs = Digest (functionIdentity fn) (functionHash fn bs) (length bs)"

subsection \<open>The backing file\<close>

text \<open>
  \<open>f.file\<close> is a \<open>filesystem.FileReadWriter\<close> obtained from the pool, or \<open>nil\<close>
  once it has been closed. What the backing file answers to a call is an input of the
  model (the parameter \<open>resp\<close> of the methods below); the calls a method issues are
  appended to \<open>backingCalls\<close>, oldest first. Calling a method of the \<open>nil\<close> interface
  value is a run-time panic.
\<close>

datatype FileReadWriter = PoolFile

datatype RegionType = Data | Hole

datatype backing_call =
    CallClose
  | CallTruncate int
  | CallReadAt nat int
  | CallWriteAt "byte list" int
  | CallGetNextRegionOffset int RegionType

type_synonym read_response = "byte list \<times> go_error option"
type_synonym write_response = "int \<times> go_error option"

datatype panic =
    InvalidOpenFrozenDescriptorCount
  | InvalidReferenceCount
  | InvalidWritableDescriptorCount
  | NilPointerDereference

text \<open>
  A method returns results and the new record, panics, waits in \<open>lockMutatingData\<close>
  (\<open>frozenDescriptorsCount > 0\<close>, and within one goroutine nothing can lower it), or
  runs out of scripted answers of the backing file before its loop has ended.
\<close>

datatype ('r, 's) outcome = Returns 'r 's | Panics panic | Waits | OutOfScript

text \<open>Sequencing: the second part runs on what the first part returned.\<close>

definition andThen :: "('a, 's) outcome \<Rightarrow> ('a \<Rightarrow> 's \<Rightarrow> ('b, 's) outcome) \<Rightarrow> ('b, 's) outcome" where
  "andThen m k =
     (case m of
        Returns r s \<Rightarrow> k r s
      | Panics p \<Rightarrow> Panics p
      | Waits \<Rightarrow> Waits
      | OutOfScript \<Rightarrow> OutOfScript)"

subsection \<open>fileBackedFile\<close>

record fileBackedFile =
  file_f :: "FileReadWriter option"
  isExecutable :: bool
  size_f :: uint64
  referenceCount :: uint64
  writableDescriptorsCount :: uint64
  frozenDescriptorsCount :: uint64
  unfreezeWakeup :: nat
  cachedDigest :: Digest
  changeID :: uint64
  backingCalls :: "backing_call list"

text \<open>
  \<open>unfreezeWakeup\<close> is the identity of the current channel. A channel is closed
  exactly when it is replaced (lines 139-140), so the closed channels are those with a
  smaller identity.
\<close>

definition lockMutatingData :: "fileBackedFile \<Rightarrow> (unit, fileBackedFile) outcome" where
  "lockMutatingData f = (if 0 < frozenDescriptorsCount f then Waits else Returns () f)"

definition acquireFrozenDescriptor :: "fileBackedFile \<Rightarrow> (bool \<times> bool) \<times> fileBackedFile" where
  "acquireFrozenDescriptor f =
     (if referenceCount f = 0 then ((False, False), f)
      else let f1 = f\<lparr>referenceCount := referenceCount f + 1\<rparr>;
               f2 = f1\<lparr>frozenDescriptorsCount := frozenDescriptorsCount f1 + 1\<rparr>
           in ((0 < writableDescriptorsCount f2, True), f2))"

definition releaseReferencesLocked :: "fileBackedFile \<Rightarrow> uint64 \<Rightarrow> (unit, fileBackedFile) outcome" where
  "releaseReferencesLocked f count =
     (if referenceCount f < count then Panics InvalidReferenceCount
      else let f1 = f\<lparr>referenceCount := referenceCount f - count\<rparr>
           in if referenceCount f1 = 0 then
                (case file_f f1 of
                   None \<Rightarrow> Panics NilPointerDereference
                 | Some h \<Rightarrow> Returns () (f1\<lparr>backingCalls := backingCalls f1 @ [CallClose], file_f := None\<rparr>))
              else Returns () f1)"

definition releaseFrozenDescriptor :: "fileBackedFile \<Rightarrow> (unit, fileBackedFile) outcome" where
  "releaseFrozenDescriptor f =
     (if frozenDescriptorsCount f = 0 then Panics InvalidOpenFrozenDescriptorCount
      else let f1 = f\<lparr>frozenDescriptorsCount := frozenDescriptorsCount f - 1\<rparr>;
               f2 = (if frozenDescriptorsCount f1 = 0
                     then f1\<lparr>unfreezeWakeup := Suc (unfreezeWakeup f1)\<rparr> else f1)
           in releaseReferencesLocked f2 1)"

definition acquireShareAccessLocked :: "fileBackedFile \<Rightarrow> ShareMask \<Rightarrow> fileBackedFile" where
  "acquireShareAccessLocked f shareAccess =
     (let f1 = f\<lparr>referenceCount := referenceCount f + Count shareAccess\<rparr>
      in if hasShareMaskWrite shareAccess
         then f1\<lparr>writableDescriptorsCount := writableDescriptorsCount f1 + 1\<rparr> else f1)"

definition Link :: "fileBackedFile \<Rightarrow> (Status, fileBackedFile) outcome" where
  "Link f =
     (if referenceCount f = 0 then Returns StatusErrStale f
      else Returns StatusOK (f\<lparr>referenceCount := referenceCount f + 1\<rparr>))"

definition Unlink :: "fileBackedFile \<Rightarrow> (unit, fileBackedFile) outcome" where
  "Unlink f = releaseReferencesLocked f 1"

definition getCachedDigest :: "fileBackedFile \<Rightarrow> Digest" where
  "getCachedDigest f = cachedDigest f"

definition Close :: "fileBackedFile \<Rightarrow> (unit, fileBackedFile) outcome" where
  "Close f = releaseFrozenDescriptor f"

text \<open>\<open>ReadAt(b, off)\<close>; \<open>n\<close> is \<open>len(b)\<close>.\<close>

definition ReadAt :: "fileBackedFile \<Rightarrow> nat \<Rightarrow> int \<Rightarrow> read_response \<Rightarrow> (read_response, fileBackedFile) outcome" where
  "ReadAt f n off resp =
     (case file_f f of
        None \<Rightarrow> Panics NilPointerDereference
      | Some h \<Rightarrow> Returns resp (f\<lparr>backingCalls := backingCalls f @ [CallReadAt n off]\<rparr>))"


subsection \<open>Digest computation\<close>

text \<open>
  \<open>io.Copy(digestGenerator, io.NewSectionReader(f, 0, math.MaxInt64))\<close> (line 204)
  belongs to Go's library. The section reader asks \<open>f.ReadAt\<close> for at most 32768 bytes
  at the current offset, the bytes it gets are written to the generator, and the loop ends
  at the first error: \<open>io.EOF\<close> ends it successfully, any other error is returned. The
  answers of the backing file are a script, one entry for each call.
\<close>

definition MaxInt64 :: int where
  "MaxInt64 = 2 ^ 63 - 1"

fun ioCopy :: "read_response list \<Rightarrow> int \<Rightarrow> byte list \<Rightarrow> fileBackedFile
    \<Rightarrow> (go_error option \<times> byte list, fileBackedFile) outcome" where
  "ioCopy [] off acc f =
     (if MaxInt64 \<le> off then Returns (None, acc) f else OutOfScript)"
| "ioCopy (resp # rs) off acc f =
     (if MaxInt64 \<le> off then Returns (None, acc) f
      else andThen (ReadAt f (nat (min 32768 (MaxInt64 - off))) off resp) (\<lambda>r f1.
        let acc1 = acc @ fst r in
        (case snd r of
           Some EOF \<Rightarrow> Returns (None, acc1) f1
         | Some e \<Rightarrow> Returns (Some e, acc1) f1
         | None \<Rightarrow> ioCopy rs (off + int (length (fst r))) acc1 f1)))"

definition updateCachedDigest :: "fileBackedFile \<Rightarrow> Function \<Rightarrow> read_response list
    \<Rightarrow> (Digest \<times> go_error option, fileBackedFile) outcome" where
  "updateCachedDigest f digestFunction rs =
     (let cached = getCachedDigest f in
      if cached \<noteq> BadDigest \<and> UsesDigestFunction cached digestFunction
      then Returns (cached, None) f
      else andThen (ioCopy rs 0 [] f) (\<lambda>r f1.
        (case fst r of
           Some err \<Rightarrow> Returns (BadDigest, Some (Internal err)) f1
         | None \<Rightarrow>
             let newDigest = generatorSum digestFunction (snd r)
             in Returns (newDigest, None) (f1\<lparr>cachedDigest := newDigest\<rparr>))))"

text \<open>
  Modelled from the spec: the Content-Addressable Store (\<open>blobstore.BlobAccess\<close>) and
  the buffer handed to it are not part of the file. \<open>Put\<close> receives the file as the
  reader of the blob: it reads from it with \<open>ReadAt\<close>, closes it with \<open>Close\<close> when it
  is done with it, whether the upload worked or not, and returns an error or none.
\<close>

record put_behaviour =
  putReads :: "(nat \<times> int \<times> read_response) list"
  putError :: "go_error option"

fun readerReads :: "(nat \<times> int \<times> read_response) list \<Rightarrow> fileBackedFile
    \<Rightarrow> (unit, fileBackedFile) outcome" where
  "readerReads [] f = Returns () f"
| "readerReads ((n, off, resp) # rest) f =
     andThen (ReadAt f n off resp) (\<lambda>r f1. readerReads rest f1)"

definition Put :: "put_behaviour \<Rightarrow> fileBackedFile \<Rightarrow> (go_error option, fileBackedFile) outcome" where
  "Put p f =
     andThen (readerReads (putReads p) f) (\<lambda>u f1.
     andThen (Close f1) (\<lambda>u f2. Returns (putError p) f2))"

text \<open>
  The Prometheus counter (line 234) and the error logger are not part of the record and
  are left out.
\<close>

definition UploadFile :: "fileBackedFile \<Rightarrow> Function \<Rightarrow> read_response list \<Rightarrow> put_behaviour
    \<Rightarrow> (Digest \<times> go_error option, fileBackedFile) outcome" where
  "UploadFile f digestFunction rs p =
     (case acquireFrozenDescriptor f of
        ((hasWritableDescriptors, success), f1) \<Rightarrow>
          if \<not> success then Returns (BadDigest, Some NotFound) f1
          else andThen (updateCachedDigest f1 digestFunction rs) (\<lambda>r f2.
            (case snd r of
               Some err \<Rightarrow> andThen (Close f2) (\<lambda>u f3. Returns (BadDigest, Some err) f3)
             | None \<Rightarrow>
                 andThen (Put p f2) (\<lambda>perr f3.
                   (case perr of
                      Some err \<Rightarrow> Returns (BadDigest, Some (Wrapped err)) f3
                    | None \<Rightarrow> Returns (fst r, None) f3)))))"

text \<open>
  The result is the digest field of the file status (absent when no digest is reported)
  or an error. The deferred \<open>releaseFrozenDescriptor\<close> runs on both returns after the
  acquisition.
\<close>

definition GetOutputServiceFileStatus :: "fileBackedFile \<Rightarrow> Function option \<Rightarrow> read_response list
    \<Rightarrow> (go_error + Digest option, fileBackedFile) outcome" where
  "GetOutputServiceFileStatus f digestFunction rs =
     (case digestFunction of
        None \<Rightarrow> Returns (Inr None) f
      | Some fn \<Rightarrow>
          (case acquireFrozenDescriptor f of
             ((hasWritableDescriptors, success), f1) \<Rightarrow>
               if \<not> success then Returns (Inl NotFound) f1
               else if \<not> hasWritableDescriptors then
                 andThen (updateCachedDigest f1 fn rs) (\<lambda>r f2.
                 andThen (releaseFrozenDescriptor f2) (\<lambda>u f3.
                   (case snd r of
                      Some err \<Rightarrow> Returns (Inl err) f3
                    | None \<Rightarrow> Returns (Inr (Some (fst r))) f3)))
               else andThen (releaseFrozenDescriptor f1) (\<lambda>u f3. Returns (Inr None) f3)))"

subsection \<open>Virtual file system operations\<close>

definition virtualTruncate :: "fileBackedFile \<Rightarrow> uint64 \<Rightarrow> go_error option
    \<Rightarrow> (Status, fileBackedFile) outcome" where
  "virtualTruncate f size' resp =
     (case file_f f of
        None \<Rightarrow> Panics NilPointerDereference
      | Some h \<Rightarrow>
          let f1 = f\<lparr>backingCalls := backingCalls f @ [CallTruncate (sint size')]\<rparr> in
          (case resp of
             Some err \<Rightarrow> Returns StatusErrIO f1
           | None \<Rightarrow>
               let f2 = f1\<lparr>cachedDigest := BadDigest\<rparr>;
                   f3 = f2\<lparr>size_f := size'\<rparr>
               in Returns StatusOK (f3\<lparr>changeID := changeID f3 + 1\<rparr>)))"

definition VirtualAllocate :: "fileBackedFile \<Rightarrow> uint64 \<Rightarrow> uint64 \<Rightarrow> go_error option
    \<Rightarrow> (Status, fileBackedFile) outcome" where
  "VirtualAllocate f off size' resp =
     andThen (lockMutatingData f) (\<lambda>u f0.
       let end = off + size' in
       if size_f f0 < end then
         andThen (virtualTruncate f0 end resp) (\<lambda>s f1.
           if s \<noteq> StatusOK then Returns s f1 else Returns StatusOK f1)
       else Returns StatusOK f0)"

definition virtualGetAttributesUnlocked :: "Attributes \<Rightarrow> Attributes" where
  "virtualGetAttributesUnlocked attributes = attributes\<lparr>attrFileType := Some FileTypeRegularFile\<rparr>"

definition virtualGetAttributesLocked :: "fileBackedFile \<Rightarrow> Attributes \<Rightarrow> Attributes" where
  "virtualGetAttributesLocked f attributes =
     (let a1 = attributes\<lparr>attrChangeID := Some (changeID f)\<rparr>;
          permissions = {PermissionsRead, PermissionsWrite};
          permissions1 = (if isExecutable f then permissions \<union> {PermissionsExecute} else permissions);
          a2 = a1\<lparr>attrPermissions := Some permissions1\<rparr>
      in a2\<lparr>attrSizeBytes := Some (size_f f)\<rparr>)"

definition VirtualGetAttributes :: "fileBackedFile \<Rightarrow> AttributesMask set \<Rightarrow> Attributes \<Rightarrow> Attributes" where
  "VirtualGetAttributes f requested attributes =
     (let a1 = virtualGetAttributesUnlocked attributes in
      if requested \<inter> {AttributesMaskChangeID, AttributesMaskPermissions, AttributesMaskSizeBytes} \<noteq> {}
      then virtualGetAttributesLocked f a1 else a1)"

definition VirtualSeek :: "fileBackedFile \<Rightarrow> uint64 \<Rightarrow> RegionType \<Rightarrow> int \<times> go_error option
    \<Rightarrow> (uint64 option \<times> Status, fileBackedFile) outcome" where
  "VirtualSeek f offset regionType resp =
     (if size_f f \<le> offset then Returns (None, StatusErrNXIO) f
      else (case file_f f of
              None \<Rightarrow> Panics NilPointerDereference
            | Some h \<Rightarrow>
                let f1 = f\<lparr>backingCalls := backingCalls f @ [CallGetNextRegionOffset (sint offset) regionType]\<rparr> in
                (case snd resp of
                   Some EOF \<Rightarrow> Returns (None, StatusOK) f1
                 | Some err \<Rightarrow> Returns (None, StatusErrIO) f1
                 | None \<Rightarrow> Returns (Some (word_of_int (fst resp)), StatusOK) f1)))"

definition VirtualOpenSelf :: "fileBackedFile \<Rightarrow> ShareMask \<Rightarrow> bool \<Rightarrow> Attributes \<Rightarrow> go_error option
    \<Rightarrow> (Status \<times> Attributes, fileBackedFile) outcome" where
  "VirtualOpenSelf f shareAccess optionsTruncate attributes resp =
     andThen (if optionsTruncate then lockMutatingData f else Returns () f) (\<lambda>u f0.
       if referenceCount f0 = 0 then Returns (StatusErrStale, attributes) f0
       else andThen (if optionsTruncate then virtualTruncate f0 0 resp else Returns StatusOK f0) (\<lambda>s f1.
         if s \<noteq> StatusOK then Returns (s, attributes) f1
         else let f2 = acquireShareAccessLocked f1 shareAccess
              in Returns (StatusOK, virtualGetAttributesLocked f2 (virtualGetAttributesUnlocked attributes)) f2))"

text \<open>
  Modelled from the spec: \<open>BoundReadToFileSize\<close> is declared elsewhere in the package.
  It clips the requested range to \<open>[0, size)\<close> and tells whether the clipped range
  reaches the end of the file. \<open>n\<close> is \<open>len(buf)\<close>.
\<close>

definition BoundReadToFileSize :: "nat \<Rightarrow> uint64 \<Rightarrow> uint64 \<Rightarrow> nat \<times> bool" where
  "BoundReadToFileSize n offset size' =
     (if size' \<le> offset then (0, True)
      else let remaining = size' - offset in
           if unat remaining \<le> n then (unat remaining, True) else (n, False))"

definition VirtualRead :: "fileBackedFile \<Rightarrow> nat \<Rightarrow> uint64 \<Rightarrow> read_response
    \<Rightarrow> (nat \<times> bool \<times> Status, fileBackedFile) outcome" where
  "VirtualRead f n off resp =
     (case BoundReadToFileSize n off (size_f f) of
        (m, eof) \<Rightarrow>
          if 0 < m then
            (case file_f f of
               None \<Rightarrow> Panics NilPointerDereference
             | Some h \<Rightarrow>
                 let f1 = f\<lparr>backingCalls := backingCalls f @ [CallReadAt m (sint off)]\<rparr> in
                 if length (fst resp) \<noteq> m then Returns (0, False, StatusErrIO) f1
                 else Returns (m, eof, StatusOK) f1)
          else Returns (m, eof, StatusOK) f)"

definition VirtualClose :: "fileBackedFile \<Rightarrow> ShareMask \<Rightarrow> (unit, fileBackedFile) outcome" where
  "VirtualClose f shareAccess =
     (if hasShareMaskWrite shareAccess then
        (if writableDescriptorsCount f = 0 then Panics InvalidWritableDescriptorCount
         else releaseReferencesLocked
                (f\<lparr>writableDescriptorsCount := writableDescriptorsCount f - 1\<rparr>) (Count shareAccess))
      else releaseReferencesLocked f (Count shareAccess))"

definition VirtualSetAttributes :: "fileBackedFile \<Rightarrow> Attributes \<Rightarrow> Attributes \<Rightarrow> go_error option
    \<Rightarrow> (Status \<times> Attributes, fileBackedFile) outcome" where
  "VirtualSetAttributes f inAttr out resp =
     andThen (if attrSizeBytes inAttr \<noteq> None then lockMutatingData f else Returns () f) (\<lambda>u f0.
     andThen (case attrSizeBytes inAttr of
                Some sizeBytes \<Rightarrow> virtualTruncate f0 sizeBytes resp
              | None \<Rightarrow> Returns StatusOK f0) (\<lambda>s f1.
       if s \<noteq> StatusOK then Returns (s, out) f1
       else let f2 = (case attrPermissions inAttr of
                        Some permissions \<Rightarrow>
                          let f3 = f1\<lparr>isExecutable := (PermissionsExecute \<in> permissions)\<rparr>
                          in f3\<lparr>changeID := changeID f3 + 1\<rparr>
                      | None \<Rightarrow> f1)
            in Returns (StatusOK, virtualGetAttributesLocked f2 (virtualGetAttributesUnlocked out)) f2))"

definition VirtualWrite :: "fileBackedFile \<Rightarrow> byte list \<Rightarrow> uint64 \<Rightarrow> write_response
    \<Rightarrow> (int \<times> Status, fileBackedFile) outcome" where
  "VirtualWrite f buf offset resp =
     andThen (lockMutatingData f) (\<lambda>u f0.
       (case file_f f0 of
          None \<Rightarrow> Panics NilPointerDereference
        | Some h \<Rightarrow>
            let nWritten = fst resp;
                f1 = f0\<lparr>backingCalls := backingCalls f0 @ [CallWriteAt buf (sint offset)]\<rparr>;
                f2 = (if 0 < nWritten then
                        let f3 = f1\<lparr>cachedDigest := BadDigest\<rparr>;
                            end = offset + word_of_int nWritten;
                            f4 = (if size_f f3 < end then f3\<lparr>size_f := end\<rparr> else f3)
                        in f4\<lparr>changeID := changeID f4 + 1\<rparr>
                      else f1)
            in (case snd resp of
                  Some err \<Rightarrow> Returns (nWritten, StatusErrIO) f2
                | None \<Rightarrow> Returns (nWritten, StatusOK) f2)))"

subsection \<open>The allocator\<close>

text \<open>
  \<open>NewFile\<close>: \<open>poolResp\<close> is the error of \<open>fa.pool.NewFile()\<close> and \<open>truncResp\<close> the
  error of the initial \<open>Truncate\<close>.
\<close>

definition NewFile :: "bool \<Rightarrow> uint64 \<Rightarrow> ShareMask \<Rightarrow> go_error option \<Rightarrow> go_error option
    \<Rightarrow> fileBackedFile option \<times> Status" where
  "NewFile isExec size' shareAccess poolResp truncResp =
     (case poolResp of
        Some err \<Rightarrow> (None, StatusErrIO)
      | None \<Rightarrow>
          if 0 < size' \<and> truncResp \<noteq> None then (None, StatusErrIO)
          else
            let f = \<lparr> file_f = Some PoolFile, isExecutable = isExec, size_f = size',
                      referenceCount = 1, writableDescriptorsCount = 0,
                      frozenDescriptorsCount = 0, unfreezeWakeup = 0,
                      cachedDigest = BadDigest, changeID = 0,
                      backingCalls = (if 0 < size' then [CallTruncate (sint size')] else []) \<rparr>
            in (Some (acquireShareAccessLocked f shareAccess), StatusOK))"

subsection \<open>Sequences of calls\<close>

text \<open>
  The methods that the virtual file system and the upload path call on a file, each with
  the answers of the backing file it will meet, and the record after one call or after a
  sequence of calls. A sequence ends at the first call that does not return.
\<close>

datatype operation =
    OpLink
  | OpUnlink
  | OpUploadFile Function "read_response list" put_behaviour
  | OpGetOutputServiceFileStatus "Function option" "read_response list"
  | OpClose
  | OpReadAt nat int read_response
  | OpVirtualAllocate uint64 uint64 "go_error option"
  | OpVirtualGetAttributes "AttributesMask set" Attributes
  | OpVirtualSeek uint64 RegionType "int \<times> go_error option"
  | OpVirtualOpenSelf ShareMask bool Attributes "go_error option"
  | OpVirtualRead nat uint64 read_response
  | OpVirtualClose ShareMask
  | OpVirtualSetAttributes Attributes Attributes "go_error option"
  | OpVirtualWrite "byte list" uint64 write_response

definition stateOf :: "('r, fileBackedFile) outcome \<Rightarrow> (unit, fileBackedFile) outcome" where
  "stateOf m = andThen m (\<lambda>r f. Returns () f)"

fun perform :: "operation \<Rightarrow> fileBackedFile \<Rightarrow> (unit, fileBackedFile) outcome" where
  "perform OpLink f = stateOf (Link f)"
| "perform OpUnlink f = Unlink f"
| "perform (OpUploadFile digestFunction rs p) f = stateOf (UploadFile f digestFunction rs p)"
| "perform (OpGetOutputServiceFileStatus digestFunction rs) f =
     stateOf (GetOutputServiceFileStatus f digestFunction rs)"
| "perform OpClose f = Close f"
| "perform (OpReadAt n off resp) f = stateOf (ReadAt f n off resp)"
| "perform (OpVirtualAllocate off size' resp) f = stateOf (VirtualAllocate f off size' resp)"
| "perform (OpVirtualGetAttributes requested attributes) f = Returns () f"
| "perform (OpVirtualSeek offset regionType resp) f = stateOf (VirtualSeek f offset regionType resp)"
| "perform (OpVirtualOpenSelf shareAccess optionsTruncate attributes resp) f =
     stateOf (VirtualOpenSelf f shareAccess optionsTruncate attributes resp)"
| "perform (OpVirtualRead n off resp) f = stateOf (VirtualRead f n off resp)"
| "perform (OpVirtualClose shareAccess) f = VirtualClose f shareAccess"
| "perform (OpVirtualSetAttributes inAttr out resp) f = stateOf (VirtualSetAttributes f inAttr out resp)"
| "perform (OpVirtualWrite buf offset resp) f = stateOf (VirtualWrite f buf offset resp)"

fun performAll :: "operation list \<Rightarrow> fileBackedFile \<Rightarrow> (unit, fileBackedFile) outcome" where
  "performAll [] f = Returns () f"
| "performAll (x # xs) f = andThen (perform x f) (\<lambda>u f1. performAll xs f1)"

text \<open>How often \<open>Close\<close> has been called on the backing file.\<close>

definition closeCalls :: "fileBackedFile \<Rightarrow> nat" where
  "closeCalls f = length (filter (\<lambda>c. c = CallClose) (backingCalls f))"

definition closedOnce :: "fileBackedFile \<Rightarrow> bool" where
  "closedOnce f \<longleftrightarrow> closeCalls f = (if file_f f = None then 1 else 0)"

text \<open>
  What reading the file leaves alone: every field but the cached digest and the list of
  calls, and the number of \<open>Close\<close> calls in that list.
\<close>

definition untouched :: "fileBackedFile \<Rightarrow> fileBackedFile \<Rightarrow> bool" where
  "untouched f f' \<longleftrightarrow>
     file_f f' = file_f f \<and> isExecutable f' = isExecutable f \<and> size_f f' = size_f f \<and>
     referenceCount f' = referenceCount f \<and>
     writableDescriptorsCount f' = writableDescriptorsCount f \<and>
     frozenDescriptorsCount f' = frozenDescriptorsCount f \<and>
     unfreezeWakeup f' = unfreezeWakeup f \<and> changeID f' = changeID f \<and>
     closeCalls f' = closeCalls f"

text \<open>
  \<open>changeID\<close> after \<open>k\<close> increments: \<open>k\<close> added in \<open>uint64\<close>, which is a strictly
  larger value when the counter does not wrap.
\<close>

definition changeIDBumped :: "nat \<Rightarrow> fileBackedFile \<Rightarrow> fileBackedFile \<Rightarrow> bool" where
  "changeIDBumped k f f' \<longleftrightarrow>
     changeID f' = changeID f + of_nat k \<and>
     (unat (changeID f) + k < 2 ^ 64 \<longrightarrow> changeID f < changeID f')"

subsection \<open>Goroutines\<close>














subsection \<open>Example files\<close>

text \<open>Concrete records and arguments, used to run the methods on.\<close>

definition shareWrite :: ShareMask where
  "shareWrite = \<lparr> Count = 1, hasShareMaskWrite = True \<rparr>"

definition identityFunction :: Function where
  "identityFunction = \<lparr> functionIdentity = 1, functionHash = (\<lambda>bs. bs) \<rparr>"

definition liveFile :: fileBackedFile where
  "liveFile = \<lparr> file_f = Some PoolFile, isExecutable = False, size_f = 3,
      referenceCount = 1, writableDescriptorsCount = 0, frozenDescriptorsCount = 0,
      unfreezeWakeup = 0, cachedDigest = BadDigest, changeID = 7, backingCalls = [] \<rparr>"

definition goneFile :: fileBackedFile where
  "goneFile = liveFile\<lparr>referenceCount := 0, file_f := None, backingCalls := [CallClose]\<rparr>"

definition digestedFile :: fileBackedFile where
  "digestedFile = liveFile\<lparr>cachedDigest := Digest 1 [] 3\<rparr>"

definition noAttributes :: Attributes where
  "noAttributes = \<lparr> attrFileType = None, attrChangeID = None, attrPermissions = None,
      attrSizeBytes = None \<rparr>"

definition chmodExecutable :: Attributes where
  "chmodExecutable = noAttributes\<lparr>attrPermissions :=
      Some {PermissionsRead, PermissionsWrite, PermissionsExecute}\<rparr>"

definition contentScript :: "read_response list" where
  "contentScript = [([65, 66, 67], None), ([], Some EOF)]"

definition failingScript :: "read_response list" where
  "failingScript = [([65], Some (Fault 1))]"

definition storeAccepts :: put_behaviour where
  "storeAccepts = \<lparr> putReads = [(3, 0, ([65, 66, 67], None))], putError = None \<rparr>"

definition storeRejects :: put_behaviour where
  "storeRejects = \<lparr> putReads = [(3, 0, ([65, 66, 67], None))], putError = Some (Fault 2) \<rparr>"






section \<open>Properties\<close>

subsection \<open>Word arithmetic\<close>

lemma unat_plus_one: "unat (w :: uint64) < 2 ^ 64 - 1 \<Longrightarrow> unat (w + 1) = Suc (unat w)"
  by (simp add: unat_word_ariths)

lemma less_plus_one: "unat (w :: uint64) < 2 ^ 64 - 1 \<Longrightarrow> w < w + 1"
  by (simp add: word_less_nat_alt unat_plus_one)

lemma less_plus_two: "unat (w :: uint64) + 2 < 2 ^ 64 \<Longrightarrow> w < w + 2"
  by (simp add: word_less_nat_alt unat_word_ariths)

lemma unat_plus_int:
  assumes "0 \<le> n" and "unat (x :: uint64) + nat n < 2 ^ 64"
  shows "unat (x + word_of_int n) = unat x + nat n"
proof -
  have eq: "(word_of_int n :: uint64) = of_nat (nat n)"
    using assms(1) by simp
  have small: "nat n < 2 ^ 64"
    using assms(2) by simp
  have "unat (of_nat (nat n) :: uint64) = nat n"
    using small by (simp add: unat_of_nat)
  then show ?thesis
    using assms(2) by (simp add: eq unat_word_ariths)
qed

lemma unat_max: "unat (max (a :: uint64) b) = max (unat a) (unat b)"
  by (simp add: max_def word_le_nat_alt)

subsection \<open>Sequencing\<close>

lemma andThen_Returns_iff:
  "andThen m k = Returns r f' \<longleftrightarrow> (\<exists>r1 f1. m = Returns r1 f1 \<and> k r1 f1 = Returns r f')"
  by (cases m) (simp_all add: andThen_def)

lemma stateOf_Returns_iff:
  "stateOf m = Returns u f' \<longleftrightarrow> (\<exists>r. m = Returns r f')"
  by (cases m) (simp_all add: stateOf_def andThen_def)

subsection \<open>Writing\<close>

text \<open>
  C4: for \<open>VirtualWrite(buf, offset)\<close>, when the backing write reports \<open>n > 0\<close> bytes
  written, the cached digest is invalidated, \<open>size\<close> becomes the maximum of the old size
  and \<open>offset + n\<close>, and \<open>changeID\<close> is bumped; when the backing write reports an error
  as well, the same holds and the call returns \<open>n\<close> with the I/O error status. The sum
  \<open>offset + n\<close> is the \<open>uint64\<close> sum of line 487; it is the sum of the numbers when
  that one is below \<open>2^64\<close>. The call returns when no frozen descriptor is outstanding
  and the backing file has not been closed.
\<close>

theorem VirtualWrite_bytes_written:
  "0 < n \<Longrightarrow>
   (frozenDescriptorsCount f = 0 \<and> file_f f \<noteq> None \<longrightarrow>
      (\<exists>f'. VirtualWrite f buf offset (n, err) = Returns (n, if err = None then StatusOK else StatusErrIO) f')) \<and>
   (\<forall>r f'. VirtualWrite f buf offset (n, err) = Returns r f' \<longrightarrow>
      r = (n, if err = None then StatusOK else StatusErrIO) \<and>
      cachedDigest f' = BadDigest \<and>
      size_f f' = max (size_f f) (offset + word_of_int n) \<and>
      changeID f' = changeID f + 1 \<and>
      (unat offset + nat n < 2 ^ 64 \<longrightarrow>
         unat (size_f f') = max (unat (size_f f)) (unat offset + nat n)))"
proof -
  assume pos: "0 < n"
  have grow: "unat offset + nat n < 2 ^ 64 \<Longrightarrow>
      unat (max (size_f f) (offset + word_of_int n)) = max (unat (size_f f)) (unat offset + nat n)"
    using pos by (simp add: unat_max unat_plus_int)
  show ?thesis
    using pos grow
    by (auto simp: VirtualWrite_def lockMutatingData_def andThen_def Let_def max_def
        split: if_splits option.splits)
qed

theorem VirtualWrite_bytes_written_witness:
  "(0::int) < 2 \<and>
   VirtualWrite digestedFile [65, 66, 67] 3 (2, Some (Fault 5))
     = Returns (2, StatusErrIO)
         (digestedFile\<lparr>backingCalls := [CallWriteAt [65, 66, 67] 3], cachedDigest := BadDigest,
            size_f := 5, changeID := 8\<rparr>) \<and>
   unat (size_f (digestedFile\<lparr>backingCalls := [CallWriteAt [65, 66, 67] 3], cachedDigest := BadDigest,
            size_f := 5, changeID := 8\<rparr>)) = max (unat (size_f digestedFile)) (unat (3 :: uint64) + nat 2)"
proof -
  have pos: "(0::int) < 2" by simp
  have run: "VirtualWrite digestedFile [65, 66, 67] 3 (2, Some (Fault 5))
     = Returns (2, StatusErrIO)
         (digestedFile\<lparr>backingCalls := [CallWriteAt [65, 66, 67] 3], cachedDigest := BadDigest,
            size_f := 5, changeID := 8\<rparr>)"
    by (simp add: VirtualWrite_def lockMutatingData_def andThen_def digestedFile_def liveFile_def)
  have small: "unat (3 :: uint64) + nat 2 < 2 ^ 64" by simp
  from VirtualWrite_bytes_written [OF pos, of digestedFile "[65, 66, 67]" 3 "Some (Fault 5)"] run small
  show ?thesis by simp
qed

text \<open>
  C9: a \<open>VirtualWrite\<close> whose backing write reports 0 bytes written and no error returns
  \<open>(0, StatusOK)\<close> and leaves \<open>size\<close>, \<open>changeID\<close> and \<open>cachedDigest\<close> as they were.
\<close>

theorem VirtualWrite_nothing_written:
  "(frozenDescriptorsCount f = 0 \<and> file_f f \<noteq> None \<longrightarrow>
      (\<exists>f'. VirtualWrite f buf offset (0, None) = Returns (0, StatusOK) f')) \<and>
   (\<forall>r f'. VirtualWrite f buf offset (0, None) = Returns r f' \<longrightarrow>
      r = (0, StatusOK) \<and> size_f f' = size_f f \<and> changeID f' = changeID f \<and>
      cachedDigest f' = cachedDigest f)"
  by (auto simp: VirtualWrite_def lockMutatingData_def andThen_def Let_def
      split: if_splits option.splits)

theorem VirtualWrite_nothing_written_witness:
  "VirtualWrite digestedFile [] 5 (0, None)
     = Returns (0, StatusOK) (digestedFile\<lparr>backingCalls := [CallWriteAt [] 5]\<rparr>) \<and>
   size_f (digestedFile\<lparr>backingCalls := [CallWriteAt [] 5]\<rparr>) = size_f digestedFile \<and>
   changeID (digestedFile\<lparr>backingCalls := [CallWriteAt [] 5]\<rparr>) = changeID digestedFile \<and>
   cachedDigest (digestedFile\<lparr>backingCalls := [CallWriteAt [] 5]\<rparr>) = Digest 1 [] 3"
proof -
  have run: "VirtualWrite digestedFile [] 5 (0, None)
      = Returns (0, StatusOK) (digestedFile\<lparr>backingCalls := [CallWriteAt [] 5]\<rparr>)"
    by (simp add: VirtualWrite_def lockMutatingData_def andThen_def digestedFile_def liveFile_def)
  from VirtualWrite_nothing_written [of digestedFile "[]" 5] run
  show ?thesis by (simp add: digestedFile_def)
qed

subsection \<open>Allocating\<close>

text \<open>
  C10: \<open>VirtualAllocate\<close> computes the end as \<open>(off + size) mod 2^64\<close>. When the sum
  reaches \<open>2^64\<close> and the wrapped end does not exceed the current size, the call returns
  \<open>StatusOK\<close> and the file is untouched; the file is extended, to the wrapped end, only
  when that end is strictly larger than the current size.
\<close>

theorem VirtualAllocate_wraps:
  "frozenDescriptorsCount f = 0 \<Longrightarrow>
     unat (off + size') = (unat off + unat size') mod 2 ^ 64 \<and>
     (\<not> size_f f < off + size' \<longrightarrow> VirtualAllocate f off size' resp = Returns StatusOK f) \<and>
     (2 ^ 64 \<le> unat off + unat size' \<and> unat off + unat size' - 2 ^ 64 \<le> unat (size_f f) \<longrightarrow>
        VirtualAllocate f off size' resp = Returns StatusOK f) \<and>
     (size_f f < off + size' \<and> file_f f \<noteq> None \<longrightarrow>
        VirtualAllocate f off size' None
          = Returns StatusOK
              (f\<lparr>backingCalls := backingCalls f @ [CallTruncate (sint (off + size'))],
                 cachedDigest := BadDigest, size_f := off + size', changeID := changeID f + 1\<rparr>))"
proof -
  assume unfrozen: "frozenDescriptorsCount f = 0"
  have wrap: "unat (off + size') = (unat off + unat size') mod 2 ^ 64"
    by (simp add: unat_word_ariths)
  have stay: "VirtualAllocate f off size' resp = Returns StatusOK f" if "\<not> size_f f < off + size'"
    using that unfrozen by (simp add: VirtualAllocate_def lockMutatingData_def andThen_def)
  have wrapped: "\<not> size_f f < off + size'"
    if over: "2 ^ 64 \<le> unat off + unat size'" and le: "unat off + unat size' - 2 ^ 64 \<le> unat (size_f f)"
  proof -
    have "unat off < 2 ^ 64" and "unat size' < 2 ^ 64"
      using unsigned_less [of off] unsigned_less [of size'] by simp_all
    then have "unat off + unat size' - 2 ^ 64 < (2 ^ 64 :: nat)"
      by simp
    then have "(unat off + unat size') mod 2 ^ 64 = unat off + unat size' - 2 ^ 64"
      using over by (simp add: mod_if)
    then show ?thesis
      using le wrap by (simp add: word_less_nat_alt)
  qed
  have extend: "VirtualAllocate f off size' None
          = Returns StatusOK
              (f\<lparr>backingCalls := backingCalls f @ [CallTruncate (sint (off + size'))],
                 cachedDigest := BadDigest, size_f := off + size', changeID := changeID f + 1\<rparr>)"
    if "size_f f < off + size'" and "file_f f \<noteq> None"
    using that unfrozen
    by (auto simp: VirtualAllocate_def lockMutatingData_def andThen_def virtualTruncate_def Let_def)
  show ?thesis
    using wrap stay wrapped extend by blast
qed

theorem VirtualAllocate_wraps_witness:
  "frozenDescriptorsCount liveFile = 0 \<and>
   unat (18446744073709551615 + 2 :: uint64) = 1 \<and>
   (2 :: nat) ^ 64 \<le> unat (18446744073709551615 :: uint64) + unat (2 :: uint64) \<and>
   VirtualAllocate liveFile 18446744073709551615 2 None = Returns StatusOK liveFile \<and>
   VirtualAllocate liveFile 2 2 None
     = Returns StatusOK (liveFile\<lparr>backingCalls := [CallTruncate 4], cachedDigest := BadDigest,
                          size_f := 4, changeID := 8\<rparr>)"
proof -
  have unfrozen: "frozenDescriptorsCount liveFile = 0"
    by (simp add: liveFile_def)
  from VirtualAllocate_wraps [OF unfrozen, of 18446744073709551615 2 None]
    VirtualAllocate_wraps [OF unfrozen, of 2 2 None]
  show ?thesis by (simp add: liveFile_def)
qed

subsection \<open>The change counter and the cached digest\<close>

lemma changeIDBumped_one:
  "changeID f' = changeID f + 1 \<Longrightarrow> changeIDBumped 1 f f'"
  by (simp add: changeIDBumped_def less_plus_one)

lemma changeIDBumped_two:
  "changeID f' = changeID f + 2 \<Longrightarrow> changeIDBumped 2 f f'"
  using less_plus_two [of "changeID f"] by (simp add: changeIDBumped_def)

lemma virtualTruncate_ok:
  "virtualTruncate f size' resp = Returns StatusOK f' \<Longrightarrow>
     changeID f' = changeID f + 1 \<and> cachedDigest f' = BadDigest \<and> size_f f' = size'"
  by (auto simp: virtualTruncate_def Let_def split: option.splits)

text \<open>
  C3, as the code has it: a \<open>VirtualWrite\<close> that writes more than 0 bytes and a
  successful truncate (\<open>VirtualOpenSelf\<close> with \<open>O_TRUNC\<close>, an extending
  \<open>VirtualAllocate\<close>, \<open>VirtualSetAttributes\<close> with a size) add one to \<open>changeID\<close>
  and reset \<open>cachedDigest\<close> to \<open>BadDigest\<close>; \<open>VirtualSetAttributes\<close> with
  permissions adds one to \<open>changeID\<close> (two together with a size) and, without a size,
  leaves \<open>cachedDigest\<close> as it was. The additions are \<open>uint64\<close> additions: the new
  \<open>changeID\<close> is strictly larger unless the counter wraps.
\<close>

theorem mutation_bumps_changeID:
  "(0 < n \<and> VirtualWrite f buf offset (n, err) = Returns r f' \<longrightarrow>
      changeIDBumped 1 f f' \<and> cachedDigest f' = BadDigest) \<and>
   (VirtualOpenSelf f shareAccess True attributes resp = Returns (StatusOK, a) f' \<longrightarrow>
      changeIDBumped 1 f f' \<and> cachedDigest f' = BadDigest) \<and>
   (size_f f < off + size' \<and> VirtualAllocate f off size' resp = Returns StatusOK f' \<longrightarrow>
      changeIDBumped 1 f f' \<and> cachedDigest f' = BadDigest) \<and>
   (attrSizeBytes inAttr \<noteq> None \<and> attrPermissions inAttr = None \<and>
    VirtualSetAttributes f inAttr out resp = Returns (StatusOK, a) f' \<longrightarrow>
      changeIDBumped 1 f f' \<and> cachedDigest f' = BadDigest) \<and>
   (attrSizeBytes inAttr \<noteq> None \<and> attrPermissions inAttr \<noteq> None \<and>
    VirtualSetAttributes f inAttr out resp = Returns (StatusOK, a) f' \<longrightarrow>
      changeIDBumped 2 f f' \<and> cachedDigest f' = BadDigest) \<and>
   (attrSizeBytes inAttr = None \<and> attrPermissions inAttr \<noteq> None \<and>
    VirtualSetAttributes f inAttr out resp = Returns (s, a) f' \<longrightarrow>
      s = StatusOK \<and> changeIDBumped 1 f f' \<and> cachedDigest f' = cachedDigest f)"
proof -
  have wr: "changeIDBumped 1 f f' \<and> cachedDigest f' = BadDigest"
    if "0 < n" and "VirtualWrite f buf offset (n, err) = Returns r f'"
    using that
    by (intro conjI changeIDBumped_one)
       (auto simp: VirtualWrite_def lockMutatingData_def andThen_Returns_iff Let_def
          split: if_splits option.splits)
  have op: "changeIDBumped 1 f f' \<and> cachedDigest f' = BadDigest"
    if "VirtualOpenSelf f shareAccess True attributes resp = Returns (StatusOK, a) f'"
    using that
    by (intro conjI changeIDBumped_one)
       (auto simp: VirtualOpenSelf_def lockMutatingData_def andThen_Returns_iff Let_def
          acquireShareAccessLocked_def
          dest!: virtualTruncate_ok split: if_splits)
  have al: "changeIDBumped 1 f f' \<and> cachedDigest f' = BadDigest"
    if "size_f f < off + size'" and "VirtualAllocate f off size' resp = Returns StatusOK f'"
    using that
    by (intro conjI changeIDBumped_one)
       (auto simp: VirtualAllocate_def lockMutatingData_def andThen_Returns_iff Let_def
          dest!: virtualTruncate_ok split: if_splits)
  have sz: "changeIDBumped 1 f f' \<and> cachedDigest f' = BadDigest"
    if "attrSizeBytes inAttr \<noteq> None" and "attrPermissions inAttr = None"
      and "VirtualSetAttributes f inAttr out resp = Returns (StatusOK, a) f'"
    using that
    by (intro conjI changeIDBumped_one)
       (auto simp: VirtualSetAttributes_def lockMutatingData_def andThen_Returns_iff Let_def
          dest!: virtualTruncate_ok split: if_splits)
  have both: "changeIDBumped 2 f f' \<and> cachedDigest f' = BadDigest"
    if size: "attrSizeBytes inAttr \<noteq> None" and perms: "attrPermissions inAttr \<noteq> None"
      and run: "VirtualSetAttributes f inAttr out resp = Returns (StatusOK, a) f'"
  proof -
    from size perms obtain sizeBytes permissions
      where inA: "attrSizeBytes inAttr = Some sizeBytes" "attrPermissions inAttr = Some permissions"
      by auto
    with run obtain f1 where tr: "virtualTruncate f sizeBytes resp = Returns StatusOK f1"
      and f': "f' = f1\<lparr>isExecutable := (PermissionsExecute \<in> permissions),
                          changeID := changeID f1 + 1\<rparr>"
      by (auto simp: VirtualSetAttributes_def lockMutatingData_def andThen_Returns_iff Let_def
          split: if_splits)
    from virtualTruncate_ok [OF tr] f'
    have "changeID f' = changeID f + 2" and "cachedDigest f' = BadDigest"
      by simp_all
    then show ?thesis
      by (simp add: changeIDBumped_two)
  qed
  have perm: "s = StatusOK \<and> changeIDBumped 1 f f' \<and> cachedDigest f' = cachedDigest f"
    if "attrSizeBytes inAttr = None" and "attrPermissions inAttr \<noteq> None"
      and "VirtualSetAttributes f inAttr out resp = Returns (s, a) f'"
    using that
    by (intro conjI changeIDBumped_one)
       (auto simp: VirtualSetAttributes_def andThen_Returns_iff Let_def split: if_splits)
  show ?thesis
    using wr op al sz both perm by blast
qed

theorem mutation_bumps_changeID_witness:
  "(0::int) < 3 \<and>
   VirtualWrite digestedFile [65, 66, 67] 0 (3, None)
     = Returns (3, StatusOK)
        (digestedFile\<lparr>backingCalls := [CallWriteAt [65, 66, 67] 0], cachedDigest := BadDigest,
           changeID := 8\<rparr>) \<and>
   changeIDBumped 1 digestedFile
     (digestedFile\<lparr>backingCalls := [CallWriteAt [65, 66, 67] 0], cachedDigest := BadDigest,
        changeID := 8\<rparr>) \<and>
   attrSizeBytes chmodExecutable = None \<and> attrPermissions chmodExecutable \<noteq> None \<and>
   VirtualSetAttributes digestedFile chmodExecutable noAttributes None
     = Returns (StatusOK,
          \<lparr> attrFileType = Some FileTypeRegularFile, attrChangeID = Some 8,
            attrPermissions = Some {PermissionsRead, PermissionsWrite, PermissionsExecute},
            attrSizeBytes = Some 3 \<rparr>)
        (digestedFile\<lparr>isExecutable := True, changeID := 8\<rparr>) \<and>
   changeIDBumped 1 digestedFile (digestedFile\<lparr>isExecutable := True, changeID := 8\<rparr>)"
proof -
  have wr: "VirtualWrite digestedFile [65, 66, 67] 0 (3, None)
     = Returns (3, StatusOK)
        (digestedFile\<lparr>backingCalls := [CallWriteAt [65, 66, 67] 0], cachedDigest := BadDigest,
           changeID := 8\<rparr>)"
    by (simp add: VirtualWrite_def lockMutatingData_def andThen_def digestedFile_def liveFile_def)
  have perm: "VirtualSetAttributes digestedFile chmodExecutable noAttributes None
     = Returns (StatusOK,
          \<lparr> attrFileType = Some FileTypeRegularFile, attrChangeID = Some 8,
            attrPermissions = Some {PermissionsRead, PermissionsWrite, PermissionsExecute},
            attrSizeBytes = Some 3 \<rparr>)
        (digestedFile\<lparr>isExecutable := True, changeID := 8\<rparr>)"
    by (simp add: VirtualSetAttributes_def andThen_def digestedFile_def liveFile_def
        chmodExecutable_def noAttributes_def virtualGetAttributesLocked_def
        virtualGetAttributesUnlocked_def insert_commute)
  have attrs: "attrSizeBytes chmodExecutable = None \<and> attrPermissions chmodExecutable \<noteq> None"
    by (simp add: chmodExecutable_def noAttributes_def)
  from mutation_bumps_changeID [where n = 3 and f = digestedFile and buf = "[65, 66, 67]"
      and offset = 0 and err = None and r = "(3, StatusOK)"
      and f' = "digestedFile\<lparr>backingCalls := [CallWriteAt [65, 66, 67] 0], cachedDigest := BadDigest,
           changeID := 8\<rparr>"]
    wr
  have bump1: "changeIDBumped 1 digestedFile
     (digestedFile\<lparr>backingCalls := [CallWriteAt [65, 66, 67] 0], cachedDigest := BadDigest,
        changeID := 8\<rparr>)"
    by simp
  from mutation_bumps_changeID [where f = digestedFile and inAttr = chmodExecutable
      and out = noAttributes and resp = None and s = StatusOK
      and a = "\<lparr> attrFileType = Some FileTypeRegularFile, attrChangeID = Some 8,
            attrPermissions = Some {PermissionsRead, PermissionsWrite, PermissionsExecute},
            attrSizeBytes = Some 3 \<rparr>"
      and f' = "digestedFile\<lparr>isExecutable := True, changeID := 8\<rparr>"]
    perm attrs
  have bump2: "changeIDBumped 1 digestedFile (digestedFile\<lparr>isExecutable := True, changeID := 8\<rparr>)"
    by simp
  from wr perm attrs bump1 bump2 show ?thesis by simp
qed

theorem executable_bit_keeps_digest_counterexample:
  "VirtualSetAttributes digestedFile chmodExecutable noAttributes None
     = Returns (StatusOK,
          \<lparr> attrFileType = Some FileTypeRegularFile, attrChangeID = Some 8,
            attrPermissions = Some {PermissionsRead, PermissionsWrite, PermissionsExecute},
            attrSizeBytes = Some 3 \<rparr>)
        (digestedFile\<lparr>isExecutable := True, changeID := 8\<rparr>) \<and>
   isExecutable digestedFile \<noteq> isExecutable (digestedFile\<lparr>isExecutable := True, changeID := 8\<rparr>) \<and>
   cachedDigest (digestedFile\<lparr>isExecutable := True, changeID := 8\<rparr>) = Digest 1 [] 3 \<and>
   cachedDigest (digestedFile\<lparr>isExecutable := True, changeID := 8\<rparr>) \<noteq> BadDigest"
  by (simp add: VirtualSetAttributes_def andThen_def digestedFile_def liveFile_def
      chmodExecutable_def noAttributes_def virtualGetAttributesLocked_def
      virtualGetAttributesUnlocked_def insert_commute)

subsection \<open>Frozen descriptors\<close>

text \<open>
  C6: \<open>acquireFrozenDescriptor\<close> fails exactly when \<open>referenceCount\<close> is zero, and then
  changes nothing; otherwise it adds one to \<open>referenceCount\<close> and to
  \<open>frozenDescriptorsCount\<close> (\<open>uint\<close> additions: by one as numbers below the largest
  value), returns whether \<open>writableDescriptorsCount > 0\<close>, and leaves every other field
  as it was.
\<close>

theorem acquireFrozenDescriptor_spec:
  "acquireFrozenDescriptor f = ((hasWritableDescriptors, success), f') \<Longrightarrow>
     (success \<longleftrightarrow> referenceCount f \<noteq> 0) \<and>
     (\<not> success \<longrightarrow> \<not> hasWritableDescriptors \<and> f' = f) \<and>
     (success \<longrightarrow>
        referenceCount f' = referenceCount f + 1 \<and>
        frozenDescriptorsCount f' = frozenDescriptorsCount f + 1 \<and>
        (hasWritableDescriptors \<longleftrightarrow> 0 < writableDescriptorsCount f) \<and>
        f' = f\<lparr>referenceCount := referenceCount f + 1,
               frozenDescriptorsCount := frozenDescriptorsCount f + 1\<rparr> \<and>
        (unat (referenceCount f) < 2 ^ 64 - 1 \<longrightarrow>
           unat (referenceCount f') = Suc (unat (referenceCount f))) \<and>
        (unat (frozenDescriptorsCount f) < 2 ^ 64 - 1 \<longrightarrow>
           unat (frozenDescriptorsCount f') = Suc (unat (frozenDescriptorsCount f))))"
  by (auto simp: acquireFrozenDescriptor_def Let_def unat_plus_one split: if_splits)

theorem acquireFrozenDescriptor_spec_witness:
  "acquireFrozenDescriptor (liveFile\<lparr>writableDescriptorsCount := 1\<rparr>)
     = ((True, True), liveFile\<lparr>writableDescriptorsCount := 1, referenceCount := 2,
                                frozenDescriptorsCount := 1\<rparr>) \<and>
   acquireFrozenDescriptor (liveFile\<lparr>referenceCount := 0\<rparr>)
     = ((False, False), liveFile\<lparr>referenceCount := 0\<rparr>) \<and>
   unat (referenceCount (liveFile\<lparr>writableDescriptorsCount := 1, referenceCount := 2,
                                frozenDescriptorsCount := 1\<rparr>)) = Suc (unat (referenceCount liveFile))"
proof -
  have live: "acquireFrozenDescriptor (liveFile\<lparr>writableDescriptorsCount := 1\<rparr>)
     = ((True, True), liveFile\<lparr>writableDescriptorsCount := 1, referenceCount := 2,
                                frozenDescriptorsCount := 1\<rparr>)"
    by (simp add: acquireFrozenDescriptor_def liveFile_def)
  have gone: "acquireFrozenDescriptor (liveFile\<lparr>referenceCount := 0\<rparr>)
     = ((False, False), liveFile\<lparr>referenceCount := 0\<rparr>)"
    by (simp add: acquireFrozenDescriptor_def liveFile_def)
  from acquireFrozenDescriptor_spec [OF live] acquireFrozenDescriptor_spec [OF gone] live gone
  show ?thesis by (simp add: liveFile_def)
qed

subsection \<open>Counter underflow\<close>

text \<open>
  C8: counter underflow is a panic, not a returned status: releasing more references than
  \<open>referenceCount\<close> holds, releasing a frozen descriptor when \<open>frozenDescriptorsCount\<close>
  is zero, and closing a handle opened for writing when \<open>writableDescriptorsCount\<close> is
  zero.
\<close>

theorem counter_underflow_panics:
  "(referenceCount f < count \<longrightarrow> releaseReferencesLocked f count = Panics InvalidReferenceCount) \<and>
   (referenceCount f = 0 \<longrightarrow> Unlink f = Panics InvalidReferenceCount) \<and>
   (frozenDescriptorsCount f = 0 \<longrightarrow>
      releaseFrozenDescriptor f = Panics InvalidOpenFrozenDescriptorCount \<and>
      Close f = Panics InvalidOpenFrozenDescriptorCount) \<and>
   (hasShareMaskWrite shareAccess \<and> writableDescriptorsCount f = 0 \<longrightarrow>
      VirtualClose f shareAccess = Panics InvalidWritableDescriptorCount) \<and>
   (referenceCount f < Count shareAccess \<and>
    (hasShareMaskWrite shareAccess \<longrightarrow> writableDescriptorsCount f \<noteq> 0) \<longrightarrow>
      VirtualClose f shareAccess = Panics InvalidReferenceCount)"
  by (simp add: releaseReferencesLocked_def Unlink_def releaseFrozenDescriptor_def Close_def
      VirtualClose_def)

theorem counter_underflow_panics_witness:
  "referenceCount liveFile < 2 \<and> releaseReferencesLocked liveFile 2 = Panics InvalidReferenceCount \<and>
   frozenDescriptorsCount liveFile = 0 \<and> Close liveFile = Panics InvalidOpenFrozenDescriptorCount \<and>
   hasShareMaskWrite shareWrite \<and> writableDescriptorsCount liveFile = 0 \<and>
   VirtualClose liveFile shareWrite = Panics InvalidWritableDescriptorCount \<and>
   referenceCount (liveFile\<lparr>referenceCount := 0\<rparr>) = 0 \<and>
   Unlink (liveFile\<lparr>referenceCount := 0\<rparr>) = Panics InvalidReferenceCount \<and>
   referenceCount (liveFile\<lparr>writableDescriptorsCount := 1, referenceCount := 0\<rparr>) < Count shareWrite \<and>
   VirtualClose (liveFile\<lparr>writableDescriptorsCount := 1, referenceCount := 0\<rparr>) shareWrite
     = Panics InvalidReferenceCount"
  using counter_underflow_panics [of liveFile 2 shareWrite]
    counter_underflow_panics [of "liveFile\<lparr>referenceCount := 0\<rparr>" 1 shareWrite]
    counter_underflow_panics [of "liveFile\<lparr>writableDescriptorsCount := 1, referenceCount := 0\<rparr>" 1 shareWrite]
  by (simp add: liveFile_def shareWrite_def)

subsection \<open>What reading leaves alone\<close>

lemma untouched_refl: "untouched f f"
  by (simp add: untouched_def)

lemma untouched_trans: "untouched f f1 \<Longrightarrow> untouched f1 f2 \<Longrightarrow> untouched f f2"
  by (simp add: untouched_def)

lemma ReadAt_untouched:
  "ReadAt f n off resp = Returns r f' \<Longrightarrow>
     untouched f f' \<and> cachedDigest f' = cachedDigest f \<and> file_f f \<noteq> None"
  by (auto simp: ReadAt_def untouched_def closeCalls_def split: option.splits)

lemma ioCopy_untouched:
  "ioCopy rs off acc f = Returns r f' \<Longrightarrow> untouched f f' \<and> cachedDigest f' = cachedDigest f"
proof (induction rs arbitrary: off acc f)
  case Nil
  then show ?case by (simp add: untouched_refl split: if_splits)
next
  case (Cons resp rs)
  show ?case
  proof (cases "MaxInt64 \<le> off")
    case True
    with Cons.prems show ?thesis by (simp add: untouched_refl)
  next
    case False
    with Cons.prems obtain r1 f1
      where rd: "ReadAt f (nat (min 32768 (MaxInt64 - off))) off resp = Returns r1 f1"
        and rest: "(case snd r1 of
             Some EOF \<Rightarrow> Returns (None, acc @ fst r1) f1
           | Some e \<Rightarrow> Returns (Some e, acc @ fst r1) f1
           | None \<Rightarrow> ioCopy rs (off + int (length (fst r1))) (acc @ fst r1) f1) = Returns r f'"
      by (auto simp: andThen_Returns_iff Let_def)
    from ReadAt_untouched [OF rd]
    have u1: "untouched f f1" and d1: "cachedDigest f1 = cachedDigest f" by simp_all
    show ?thesis
    proof (cases "snd r1")
      case None
      with rest have "ioCopy rs (off + int (length (fst r1))) (acc @ fst r1) f1 = Returns r f'"
        by simp
      from Cons.IH [OF this] u1 d1 show ?thesis
        by (auto intro: untouched_trans)
    next
      case (Some e)
      with rest have "f' = f1" by (cases e) auto
      with u1 d1 show ?thesis by simp
    qed
  qed
qed

lemma updateCachedDigest_cases:
  "updateCachedDigest f fn rs = Returns r f' \<Longrightarrow>
     (cachedDigest f \<noteq> BadDigest \<and> UsesDigestFunction (cachedDigest f) fn \<and>
        r = (cachedDigest f, None) \<and> f' = f) \<or>
     (\<exists>e bs. ioCopy rs 0 [] f = Returns (Some e, bs) f' \<and> r = (BadDigest, Some (Internal e))) \<or>
     (\<exists>bs f1. ioCopy rs 0 [] f = Returns (None, bs) f1 \<and> r = (generatorSum fn bs, None) \<and>
        f' = f1\<lparr>cachedDigest := generatorSum fn bs\<rparr>)"
  by (auto simp: updateCachedDigest_def getCachedDigest_def andThen_Returns_iff Let_def
      split: if_splits option.splits)

lemma updateCachedDigest_untouched:
  assumes "updateCachedDigest f fn rs = Returns r f'"
  shows "untouched f f'"
  using updateCachedDigest_cases [OF assms]
  by (auto simp: untouched_refl dest!: ioCopy_untouched) (simp add: untouched_def closeCalls_def)

lemma readerReads_untouched:
  "readerReads reads f = Returns u f' \<Longrightarrow> untouched f f' \<and> cachedDigest f' = cachedDigest f"
proof (induction reads arbitrary: f)
  case Nil
  then show ?case by (simp add: untouched_refl)
next
  case (Cons x reads)
  obtain n off resp where x: "x = (n, off, resp)" by (cases x)
  with Cons.prems obtain r1 f1 where rd: "ReadAt f n off resp = Returns r1 f1"
    and rest: "readerReads reads f1 = Returns u f'"
    by (auto simp: andThen_Returns_iff)
  from ReadAt_untouched [OF rd] Cons.IH [OF rest] show ?case
    by (auto intro: untouched_trans)
qed

subsection \<open>The digest cache\<close>

lemmas run_defs =
  UploadFile_def acquireFrozenDescriptor_def updateCachedDigest_def getCachedDigest_def
  andThen_def ReadAt_def Close_def releaseFrozenDescriptor_def releaseReferencesLocked_def
  Put_def generatorSum_def MaxInt64_def Let_def liveFile_def goneFile_def identityFunction_def
  contentScript_def failingScript_def storeAccepts_def storeRejects_def

text \<open>
  C7: when \<open>updateCachedDigest\<close> has returned a digest, a second call with the same
  digest function on a record whose cached digest has not changed since (no mutation in
  between) returns the same digest and the record as it is: in particular the second call
  issues no call to the backing file, whatever the file would answer.
\<close>

theorem updateCachedDigest_cache_hit:
  assumes first: "updateCachedDigest f digestFunction rs = Returns (d, None) f1"
    and unchanged: "cachedDigest f2 = cachedDigest f1"
  shows "updateCachedDigest f2 digestFunction rs' = Returns (d, None) f2"
proof -
  have "cachedDigest f1 = d \<and> d \<noteq> BadDigest \<and> UsesDigestFunction d digestFunction"
    using updateCachedDigest_cases [OF first]
    by (auto simp: generatorSum_def)
  with unchanged show ?thesis
    by (simp add: updateCachedDigest_def getCachedDigest_def)
qed

theorem updateCachedDigest_cache_hit_witness:
  "updateCachedDigest liveFile identityFunction contentScript
     = Returns (Digest 1 [65, 66, 67] 3, None)
         (liveFile\<lparr>backingCalls := [CallReadAt 32768 0, CallReadAt 32768 3],
            cachedDigest := Digest 1 [65, 66, 67] 3\<rparr>) \<and>
   updateCachedDigest
       (liveFile\<lparr>backingCalls := [CallReadAt 32768 0, CallReadAt 32768 3],
          cachedDigest := Digest 1 [65, 66, 67] 3\<rparr>) identityFunction contentScript
     = Returns (Digest 1 [65, 66, 67] 3, None)
         (liveFile\<lparr>backingCalls := [CallReadAt 32768 0, CallReadAt 32768 3],
            cachedDigest := Digest 1 [65, 66, 67] 3\<rparr>)"
proof -
  have first: "updateCachedDigest liveFile identityFunction contentScript
     = Returns (Digest 1 [65, 66, 67] 3, None)
         (liveFile\<lparr>backingCalls := [CallReadAt 32768 0, CallReadAt 32768 3],
            cachedDigest := Digest 1 [65, 66, 67] 3\<rparr>)"
    by (simp add: run_defs)
  from updateCachedDigest_cache_hit [OF first refl, of contentScript] first
  show ?thesis by simp
qed

subsection \<open>Uploading\<close>

lemma releaseReferencesLocked_counts:
  "releaseReferencesLocked f count = Returns u f' \<Longrightarrow>
     referenceCount f' = referenceCount f - count \<and>
     frozenDescriptorsCount f' = frozenDescriptorsCount f \<and>
     writableDescriptorsCount f' = writableDescriptorsCount f"
  by (auto simp: releaseReferencesLocked_def Let_def split: if_splits option.splits)

lemma Close_counts:
  "Close f = Returns u f' \<Longrightarrow>
     referenceCount f' = referenceCount f - 1 \<and>
     frozenDescriptorsCount f' = frozenDescriptorsCount f - 1 \<and>
     writableDescriptorsCount f' = writableDescriptorsCount f"
  by (auto simp: Close_def releaseFrozenDescriptor_def Let_def
      dest!: releaseReferencesLocked_counts split: if_splits)

lemma Put_counts:
  assumes "Put p f = Returns perr f'"
  shows "referenceCount f' = referenceCount f - 1 \<and>
     frozenDescriptorsCount f' = frozenDescriptorsCount f - 1 \<and>
     writableDescriptorsCount f' = writableDescriptorsCount f"
proof -
  from assms obtain f1 u where rd: "readerReads (putReads p) f = Returns u f1"
    and cl: "Close f1 = Returns () f'"
    by (auto simp: Put_def andThen_Returns_iff)
  from readerReads_untouched [OF rd] Close_counts [OF cl] show ?thesis
    by (simp add: untouched_def)
qed

text \<open>
  C5: \<open>UploadFile\<close> gives back the frozen descriptor it acquired on every path on which
  it returns: not-found at the acquisition (nothing was acquired), a failed digest
  computation (\<open>f.Close()\<close> on line 239), and a failed or successful \<open>Put\<close> (the
  store closes the reader it was handed). \<open>frozenDescriptorsCount\<close>,
  \<open>referenceCount\<close> and \<open>writableDescriptorsCount\<close> are afterwards what they were
  before the call.
\<close>

theorem UploadFile_releases_frozen_reference:
  assumes "UploadFile f digestFunction rs p = Returns r f'"
  shows "frozenDescriptorsCount f' = frozenDescriptorsCount f \<and>
         referenceCount f' = referenceCount f \<and>
         writableDescriptorsCount f' = writableDescriptorsCount f"
proof (cases "referenceCount f = 0")
  case True
  with assms show ?thesis
    by (simp add: UploadFile_def acquireFrozenDescriptor_def)
next
  case False
  let ?f1 = "f\<lparr>referenceCount := referenceCount f + 1,
                 frozenDescriptorsCount := frozenDescriptorsCount f + 1\<rparr>"
  from False assms obtain r2 f2 where upd: "updateCachedDigest ?f1 digestFunction rs = Returns r2 f2"
    and rest: "(case snd r2 of
               Some err \<Rightarrow> andThen (Close f2) (\<lambda>u f3. Returns (BadDigest, Some err) f3)
             | None \<Rightarrow>
                 andThen (Put p f2) (\<lambda>perr f3.
                   (case perr of
                      Some err \<Rightarrow> Returns (BadDigest, Some (Wrapped err)) f3
                    | None \<Rightarrow> Returns (fst r2, None) f3))) = Returns r f'"
    by (auto simp: UploadFile_def acquireFrozenDescriptor_def Let_def andThen_Returns_iff)
  from updateCachedDigest_untouched [OF upd]
  have held: "referenceCount f2 = referenceCount f + 1"
      "frozenDescriptorsCount f2 = frozenDescriptorsCount f + 1"
      "writableDescriptorsCount f2 = writableDescriptorsCount f"
    by (simp_all add: untouched_def)
  show ?thesis
  proof (cases "snd r2")
    case (Some err)
    with rest have "Close f2 = Returns () f'"
      by (auto simp: andThen_Returns_iff)
    from Close_counts [OF this] held show ?thesis by simp
  next
    case None
    with rest obtain perr where "Put p f2 = Returns perr f'"
      by (auto simp: andThen_Returns_iff split: option.splits)
    from Put_counts [OF this] held show ?thesis by simp
  qed
qed

theorem UploadFile_releases_frozen_reference_witness:
  "UploadFile goneFile identityFunction contentScript storeAccepts
     = Returns (BadDigest, Some NotFound) goneFile \<and>
   UploadFile liveFile identityFunction failingScript storeAccepts
     = Returns (BadDigest, Some (Internal (Fault 1)))
         (liveFile\<lparr>unfreezeWakeup := 1, backingCalls := [CallReadAt 32768 0]\<rparr>) \<and>
   UploadFile liveFile identityFunction contentScript storeRejects
     = Returns (BadDigest, Some (Wrapped (Fault 2)))
         (liveFile\<lparr>unfreezeWakeup := 1, cachedDigest := Digest 1 [65, 66, 67] 3,
            backingCalls := [CallReadAt 32768 0, CallReadAt 32768 3, CallReadAt 3 0]\<rparr>) \<and>
   UploadFile liveFile identityFunction contentScript storeAccepts
     = Returns (Digest 1 [65, 66, 67] 3, None)
         (liveFile\<lparr>unfreezeWakeup := 1, cachedDigest := Digest 1 [65, 66, 67] 3,
            backingCalls := [CallReadAt 32768 0, CallReadAt 32768 3, CallReadAt 3 0]\<rparr>) \<and>
   frozenDescriptorsCount (liveFile\<lparr>unfreezeWakeup := 1, cachedDigest := Digest 1 [65, 66, 67] 3,
            backingCalls := [CallReadAt 32768 0, CallReadAt 32768 3, CallReadAt 3 0]\<rparr>)
     = frozenDescriptorsCount liveFile \<and>
   referenceCount (liveFile\<lparr>unfreezeWakeup := 1, cachedDigest := Digest 1 [65, 66, 67] 3,
            backingCalls := [CallReadAt 32768 0, CallReadAt 32768 3, CallReadAt 3 0]\<rparr>)
     = referenceCount liveFile"
proof -
  have gone: "UploadFile goneFile identityFunction contentScript storeAccepts
     = Returns (BadDigest, Some NotFound) goneFile"
    by (simp add: run_defs)
  have digest: "UploadFile liveFile identityFunction failingScript storeAccepts
     = Returns (BadDigest, Some (Internal (Fault 1)))
         (liveFile\<lparr>unfreezeWakeup := 1, backingCalls := [CallReadAt 32768 0]\<rparr>)"
    by (simp add: run_defs)
  have rejected: "UploadFile liveFile identityFunction contentScript storeRejects
     = Returns (BadDigest, Some (Wrapped (Fault 2)))
         (liveFile\<lparr>unfreezeWakeup := 1, cachedDigest := Digest 1 [65, 66, 67] 3,
            backingCalls := [CallReadAt 32768 0, CallReadAt 32768 3, CallReadAt 3 0]\<rparr>)"
    by (simp add: run_defs)
  have accepted: "UploadFile liveFile identityFunction contentScript storeAccepts
     = Returns (Digest 1 [65, 66, 67] 3, None)
         (liveFile\<lparr>unfreezeWakeup := 1, cachedDigest := Digest 1 [65, 66, 67] 3,
            backingCalls := [CallReadAt 32768 0, CallReadAt 32768 3, CallReadAt 3 0]\<rparr>)"
    by (simp add: run_defs)
  from UploadFile_releases_frozen_reference [OF gone]
    UploadFile_releases_frozen_reference [OF digest]
    UploadFile_releases_frozen_reference [OF rejected]
    UploadFile_releases_frozen_reference [OF accepted]
    gone digest rejected accepted
  show ?thesis by simp
qed

subsection \<open>The end of a file's life\<close>

lemma releaseReferencesLocked_closes:
  "releaseReferencesLocked f count = Returns u f' \<Longrightarrow>
     (referenceCount f' = 0 \<longrightarrow>
        file_f f \<noteq> None \<and> file_f f' = None \<and> backingCalls f' = backingCalls f @ [CallClose]) \<and>
     (referenceCount f' \<noteq> 0 \<longrightarrow> file_f f' = file_f f \<and> backingCalls f' = backingCalls f)"
  by (auto simp: releaseReferencesLocked_def Let_def split: if_splits option.splits)

lemma stale_when_gone:
  "referenceCount f = 0 \<Longrightarrow>
     Link f = Returns StatusErrStale f \<and>
     VirtualOpenSelf f shareAccess False attributes resp = Returns (StatusErrStale, attributes) f \<and>
     (frozenDescriptorsCount f = 0 \<longrightarrow>
        VirtualOpenSelf f shareAccess True attributes resp = Returns (StatusErrStale, attributes) f) \<and>
     acquireFrozenDescriptor f = ((False, False), f) \<and>
     UploadFile f digestFunction rs p = Returns (BadDigest, Some NotFound) f \<and>
     GetOutputServiceFileStatus f (Some digestFunction) rs = Returns (Inl NotFound) f"
  by (simp add: Link_def VirtualOpenSelf_def lockMutatingData_def andThen_def
      acquireFrozenDescriptor_def UploadFile_def GetOutputServiceFileStatus_def)

lemma gone_releaseReferencesLocked:
  "referenceCount f = 0 \<Longrightarrow> file_f f = None \<Longrightarrow> releaseReferencesLocked f count \<noteq> Returns u f'"
  by (auto simp: releaseReferencesLocked_def Let_def word_gt_0 split: if_splits)

lemma gone_perform:
  assumes "referenceCount f = 0" and "file_f f = None" and "perform x f = Returns u f'"
  shows "referenceCount f' = 0 \<and> file_f f' = None \<and> backingCalls f' = backingCalls f"
proof (cases x)
  case OpLink
  with assms show ?thesis by (auto simp: stateOf_Returns_iff Link_def)
next
  case OpUnlink
  with assms show ?thesis by (auto simp: Unlink_def gone_releaseReferencesLocked)
next
  case (OpUploadFile fn rs p)
  with assms stale_when_gone [of f] show ?thesis by (auto simp: stateOf_Returns_iff)
next
  case (OpGetOutputServiceFileStatus fn rs)
  with assms stale_when_gone [of f] show ?thesis
    by (cases fn) (auto simp: stateOf_Returns_iff GetOutputServiceFileStatus_def)
next
  case OpClose
  with assms show ?thesis
    by (auto simp: Close_def releaseFrozenDescriptor_def Let_def gone_releaseReferencesLocked
        split: if_splits)
next
  case (OpReadAt n off resp)
  with assms show ?thesis by (auto simp: stateOf_Returns_iff ReadAt_def)
next
  case (OpVirtualAllocate off size' resp)
  with assms show ?thesis
    by (auto simp: stateOf_Returns_iff VirtualAllocate_def lockMutatingData_def
        virtualTruncate_def andThen_Returns_iff Let_def split: if_splits)
next
  case (OpVirtualGetAttributes requested attributes)
  with assms show ?thesis by auto
next
  case (OpVirtualSeek offset regionType resp)
  with assms show ?thesis
    by (auto simp: stateOf_Returns_iff VirtualSeek_def split: if_splits)
next
  case (OpVirtualOpenSelf shareAccess optionsTruncate attributes resp)
  with assms show ?thesis
    by (auto simp: stateOf_Returns_iff VirtualOpenSelf_def lockMutatingData_def
        andThen_Returns_iff split: if_splits)
next
  case (OpVirtualRead n off resp)
  with assms show ?thesis
    by (auto simp: stateOf_Returns_iff VirtualRead_def split: if_splits prod.splits)
next
  case (OpVirtualClose shareAccess)
  with assms show ?thesis
    by (auto simp: VirtualClose_def gone_releaseReferencesLocked split: if_splits)
next
  case (OpVirtualSetAttributes inAttr out resp)
  with assms show ?thesis
    by (auto simp: stateOf_Returns_iff VirtualSetAttributes_def lockMutatingData_def
        virtualTruncate_def andThen_Returns_iff Let_def split: if_splits option.splits)
next
  case (OpVirtualWrite buf offset resp)
  with assms show ?thesis
    by (auto simp: stateOf_Returns_iff VirtualWrite_def lockMutatingData_def
        andThen_Returns_iff split: if_splits)
qed

lemma gone_performAll:
  "referenceCount f = 0 \<Longrightarrow> file_f f = None \<Longrightarrow> performAll xs f = Returns u f' \<Longrightarrow>
     referenceCount f' = 0 \<and> file_f f' = None \<and> backingCalls f' = backingCalls f"
proof (induction xs arbitrary: f)
  case Nil
  then show ?case by simp
next
  case (Cons x xs)
  from Cons.prems(3) obtain f1 where one: "perform x f = Returns () f1"
    and rest: "performAll xs f1 = Returns u f'"
    by (auto simp: andThen_Returns_iff)
  from gone_perform [OF Cons.prems(1,2) one] Cons.IH [OF _ _ rest] show ?case
    by simp
qed

lemma untouched_closedOnce: "untouched f f' \<Longrightarrow> closedOnce f \<Longrightarrow> closedOnce f'"
  by (simp add: untouched_def closedOnce_def)

lemma closedOnce_update [simp]:
  "closedOnce (f\<lparr>referenceCount := a\<rparr>) = closedOnce f"
  "closedOnce (f\<lparr>frozenDescriptorsCount := b\<rparr>) = closedOnce f"
  "closedOnce (f\<lparr>writableDescriptorsCount := c\<rparr>) = closedOnce f"
  "closedOnce (f\<lparr>unfreezeWakeup := d\<rparr>) = closedOnce f"
  "closedOnce (f\<lparr>cachedDigest := e\<rparr>) = closedOnce f"
  "closedOnce (f\<lparr>changeID := g\<rparr>) = closedOnce f"
  "closedOnce (f\<lparr>size_f := h\<rparr>) = closedOnce f"
  "closedOnce (f\<lparr>isExecutable := i\<rparr>) = closedOnce f"
  by (simp_all add: closedOnce_def closeCalls_def)

lemma closedOnce_append:
  "c \<noteq> CallClose \<Longrightarrow> closedOnce (f\<lparr>backingCalls := backingCalls f @ [c]\<rparr>) = closedOnce f"
  by (simp add: closedOnce_def closeCalls_def)

lemma closedOnce_releaseReferencesLocked:
  "closedOnce f \<Longrightarrow> releaseReferencesLocked f count = Returns u f' \<Longrightarrow> closedOnce f'"
  by (auto simp: releaseReferencesLocked_def Let_def closedOnce_def closeCalls_def
      split: if_splits option.splits)

lemma closedOnce_releaseFrozenDescriptor:
  "closedOnce f \<Longrightarrow> releaseFrozenDescriptor f = Returns u f' \<Longrightarrow> closedOnce f'"
  by (auto simp: releaseFrozenDescriptor_def Let_def
      dest: closedOnce_releaseReferencesLocked [rotated] split: if_splits)

lemma closedOnce_virtualTruncate:
  "closedOnce f \<Longrightarrow> virtualTruncate f size' resp = Returns s f' \<Longrightarrow> closedOnce f'"
  by (auto simp: virtualTruncate_def Let_def closedOnce_append split: option.splits)

lemma closedOnce_acquireShareAccessLocked:
  "closedOnce (acquireShareAccessLocked f shareAccess) = closedOnce f"
  by (simp add: acquireShareAccessLocked_def Let_def)

lemma closedOnce_UploadFile:
  assumes inv: "closedOnce f" and run: "UploadFile f digestFunction rs p = Returns r f'"
  shows "closedOnce f'"
proof (cases "referenceCount f = 0")
  case True
  with run inv show ?thesis
    by (simp add: UploadFile_def acquireFrozenDescriptor_def)
next
  case False
  let ?f1 = "f\<lparr>referenceCount := referenceCount f + 1,
                 frozenDescriptorsCount := frozenDescriptorsCount f + 1\<rparr>"
  from False run obtain r2 f2 where upd: "updateCachedDigest ?f1 digestFunction rs = Returns r2 f2"
    and rest: "(case snd r2 of
               Some err \<Rightarrow> andThen (Close f2) (\<lambda>u f3. Returns (BadDigest, Some err) f3)
             | None \<Rightarrow>
                 andThen (Put p f2) (\<lambda>perr f3.
                   (case perr of
                      Some err \<Rightarrow> Returns (BadDigest, Some (Wrapped err)) f3
                    | None \<Rightarrow> Returns (fst r2, None) f3))) = Returns r f'"
    by (auto simp: UploadFile_def acquireFrozenDescriptor_def Let_def andThen_Returns_iff)
  have inv2: "closedOnce f2"
    using untouched_closedOnce [OF updateCachedDigest_untouched [OF upd]] inv by simp
  show ?thesis
  proof (cases "snd r2")
    case (Some err)
    with rest have "releaseFrozenDescriptor f2 = Returns () f'"
      by (auto simp: andThen_Returns_iff Close_def)
    from closedOnce_releaseFrozenDescriptor [OF inv2 this] show ?thesis .
  next
    case None
    with rest obtain u f3 where rd: "readerReads (putReads p) f2 = Returns u f3"
      and cl: "releaseFrozenDescriptor f3 = Returns () f'"
      by (auto simp: andThen_Returns_iff Put_def Close_def split: option.splits)
    from readerReads_untouched [OF rd] inv2 have "closedOnce f3"
      by (auto intro: untouched_closedOnce)
    from closedOnce_releaseFrozenDescriptor [OF this cl] show ?thesis .
  qed
qed

lemma closedOnce_GetOutputServiceFileStatus:
  assumes inv: "closedOnce f" and run: "GetOutputServiceFileStatus f digestFunction rs = Returns r f'"
  shows "closedOnce f'"
proof (cases digestFunction)
  case None
  with run inv show ?thesis by (simp add: GetOutputServiceFileStatus_def)
next
  case (Some fn)
  show ?thesis
  proof (cases "referenceCount f = 0")
    case True
    with run inv Some show ?thesis
      by (simp add: GetOutputServiceFileStatus_def acquireFrozenDescriptor_def)
  next
    case False
    let ?f1 = "f\<lparr>referenceCount := referenceCount f + 1,
                   frozenDescriptorsCount := frozenDescriptorsCount f + 1\<rparr>"
    show ?thesis
    proof (cases "0 < writableDescriptorsCount f")
      case True
      with run Some False have "releaseFrozenDescriptor ?f1 = Returns () f'"
        by (auto simp: GetOutputServiceFileStatus_def acquireFrozenDescriptor_def Let_def
            andThen_Returns_iff)
      from closedOnce_releaseFrozenDescriptor [OF _ this] inv show ?thesis by simp
    next
      case nowr: False
      with run Some False obtain r2 f2 where upd: "updateCachedDigest ?f1 fn rs = Returns r2 f2"
        and rel: "releaseFrozenDescriptor f2 = Returns () f'"
        by (auto simp: GetOutputServiceFileStatus_def acquireFrozenDescriptor_def Let_def
            andThen_Returns_iff split: option.splits)
      have "closedOnce f2"
        using untouched_closedOnce [OF updateCachedDigest_untouched [OF upd]] inv by simp
      from closedOnce_releaseFrozenDescriptor [OF this rel] show ?thesis .
    qed
  qed
qed

lemma closedOnce_perform:
  assumes inv: "closedOnce f" and run: "perform x f = Returns u f'"
  shows "closedOnce f'"
proof (cases x)
  case OpLink
  with assms show ?thesis by (auto simp: stateOf_Returns_iff Link_def split: if_splits)
next
  case OpUnlink
  with assms show ?thesis by (auto simp: Unlink_def dest: closedOnce_releaseReferencesLocked)
next
  case (OpUploadFile fn rs p)
  with assms show ?thesis by (auto simp: stateOf_Returns_iff dest: closedOnce_UploadFile)
next
  case (OpGetOutputServiceFileStatus fn rs)
  with assms show ?thesis
    by (auto simp: stateOf_Returns_iff dest: closedOnce_GetOutputServiceFileStatus)
next
  case OpClose
  with assms show ?thesis by (auto simp: Close_def dest: closedOnce_releaseFrozenDescriptor)
next
  case (OpReadAt n off resp)
  with assms show ?thesis
    by (auto simp: stateOf_Returns_iff dest!: ReadAt_untouched intro: untouched_closedOnce)
next
  case (OpVirtualAllocate off size' resp)
  with assms show ?thesis
    by (auto simp: stateOf_Returns_iff VirtualAllocate_def lockMutatingData_def
        andThen_Returns_iff Let_def dest: closedOnce_virtualTruncate split: if_splits)
next
  case (OpVirtualGetAttributes requested attributes)
  with assms show ?thesis by auto
next
  case (OpVirtualSeek offset regionType resp)
  with assms show ?thesis
    by (auto simp: stateOf_Returns_iff VirtualSeek_def Let_def closedOnce_append
        split: if_splits option.splits go_error.splits)
next
  case (OpVirtualOpenSelf shareAccess optionsTruncate attributes resp)
  with assms show ?thesis
    by (auto simp: stateOf_Returns_iff VirtualOpenSelf_def lockMutatingData_def
        andThen_Returns_iff closedOnce_acquireShareAccessLocked Let_def
        dest: closedOnce_virtualTruncate split: if_splits)
next
  case (OpVirtualRead n off resp)
  with assms show ?thesis
    by (auto simp: stateOf_Returns_iff VirtualRead_def Let_def closedOnce_append
        split: if_splits prod.splits option.splits)
next
  case (OpVirtualClose shareAccess)
  with assms show ?thesis
    by (auto simp: VirtualClose_def dest: closedOnce_releaseReferencesLocked [rotated]
        split: if_splits)
next
  case (OpVirtualSetAttributes inAttr out resp)
  with assms show ?thesis
    by (auto simp: stateOf_Returns_iff VirtualSetAttributes_def lockMutatingData_def
        andThen_Returns_iff Let_def dest: closedOnce_virtualTruncate
        split: if_splits option.splits)
next
  case (OpVirtualWrite buf offset resp)
  with assms show ?thesis
    by (auto simp: stateOf_Returns_iff VirtualWrite_def lockMutatingData_def
        andThen_Returns_iff Let_def closedOnce_append split: if_splits option.splits)
qed

lemma closedOnce_performAll:
  "closedOnce f \<Longrightarrow> performAll xs f = Returns u f' \<Longrightarrow> closedOnce f'"
proof (induction xs arbitrary: f)
  case Nil
  then show ?case by simp
next
  case (Cons x xs)
  from Cons.prems(2) obtain f1 where one: "perform x f = Returns () f1"
    and rest: "performAll xs f1 = Returns u f'"
    by (auto simp: andThen_Returns_iff)
  from Cons.IH [OF closedOnce_perform [OF Cons.prems(1) one] rest] show ?case .
qed

text \<open>
  C1, as the code has it: when \<open>releaseReferencesLocked\<close> brings \<open>referenceCount\<close> to
  zero, the backing file is closed in that call, once, and \<open>f.file\<close> becomes \<open>nil\<close>.
  From then on \<open>Link\<close> and \<open>VirtualOpenSelf\<close> return \<open>StatusErrStale\<close>,
  \<open>acquireFrozenDescriptor\<close> fails and \<open>UploadFile\<close> and
  \<open>GetOutputServiceFileStatus\<close> report not-found, all without changing the record.
  Whatever sequence of methods is called afterwards, every call that returns leaves
  \<open>referenceCount\<close> at zero, \<open>f.file\<close> at \<open>nil\<close> and issues no call to the backing
  file. Over any sequence of calls the backing file has been closed once when
  \<open>f.file\<close> is \<open>nil\<close> and not at all otherwise. \<open>VirtualRead\<close> and the other
  methods that work on an open handle do not test \<open>referenceCount\<close>.
\<close>

theorem released_once_then_stale:
  "(releaseReferencesLocked f count = Returns () f1 \<and> referenceCount f1 = 0 \<longrightarrow>
      file_f f1 = None \<and> backingCalls f1 = backingCalls f @ [CallClose]) \<and>
   (referenceCount g = 0 \<longrightarrow>
      Link g = Returns StatusErrStale g \<and>
      VirtualOpenSelf g shareAccess False attributes resp = Returns (StatusErrStale, attributes) g \<and>
      (frozenDescriptorsCount g = 0 \<longrightarrow>
         VirtualOpenSelf g shareAccess True attributes resp = Returns (StatusErrStale, attributes) g) \<and>
      acquireFrozenDescriptor g = ((False, False), g) \<and>
      UploadFile g digestFunction rs p = Returns (BadDigest, Some NotFound) g \<and>
      GetOutputServiceFileStatus g (Some digestFunction) rs = Returns (Inl NotFound) g) \<and>
   (referenceCount g = 0 \<and> file_f g = None \<and> performAll xs g = Returns () g' \<longrightarrow>
      referenceCount g' = 0 \<and> file_f g' = None \<and> backingCalls g' = backingCalls g) \<and>
   (closedOnce h \<and> performAll ys h = Returns () h' \<longrightarrow> closedOnce h')"
  using releaseReferencesLocked_closes [of f count "()" f1]
    stale_when_gone [of g shareAccess attributes resp digestFunction rs p]
    gone_performAll [of g xs "()" g'] closedOnce_performAll [of h ys "()" h']
  by blast

theorem released_once_then_stale_witness:
  "releaseReferencesLocked liveFile 1 = Returns () goneFile \<and> referenceCount goneFile = 0 \<and>
   file_f goneFile = None \<and> backingCalls goneFile = backingCalls liveFile @ [CallClose] \<and>
   Link goneFile = Returns StatusErrStale goneFile \<and>
   VirtualOpenSelf goneFile shareWrite True noAttributes None
     = Returns (StatusErrStale, noAttributes) goneFile \<and>
   performAll [OpVirtualRead 4 3 ([], None), OpLink,
       OpVirtualSetAttributes chmodExecutable noAttributes None,
       OpVirtualOpenSelf shareWrite False noAttributes None] goneFile
     = Returns () (goneFile\<lparr>isExecutable := True, changeID := 8\<rparr>) \<and>
   backingCalls (goneFile\<lparr>isExecutable := True, changeID := 8\<rparr>) = backingCalls goneFile \<and>
   closedOnce liveFile \<and>
   performAll [OpVirtualOpenSelf shareWrite False noAttributes None, OpVirtualWrite [65] 3 (1, None),
       OpVirtualClose shareWrite, OpLink, OpUnlink, OpUnlink] liveFile
     = Returns () (goneFile\<lparr>size_f := 4, changeID := 8, backingCalls := [CallWriteAt [65] 3, CallClose]\<rparr>) \<and>
   closedOnce (goneFile\<lparr>size_f := 4, changeID := 8, backingCalls := [CallWriteAt [65] 3, CallClose]\<rparr>)"
proof -
  have release: "releaseReferencesLocked liveFile 1 = Returns () goneFile"
    by (simp add: releaseReferencesLocked_def liveFile_def goneFile_def)
  have zero: "referenceCount goneFile = 0" and nil: "file_f goneFile = None"
    and unfrozen: "frozenDescriptorsCount goneFile = 0"
    by (simp_all add: goneFile_def liveFile_def)
  have after: "performAll [OpVirtualRead 4 3 ([], None), OpLink,
       OpVirtualSetAttributes chmodExecutable noAttributes None,
       OpVirtualOpenSelf shareWrite False noAttributes None] goneFile
     = Returns () (goneFile\<lparr>isExecutable := True, changeID := 8\<rparr>)"
    by (simp add: stateOf_def andThen_def VirtualRead_def BoundReadToFileSize_def Link_def
        VirtualSetAttributes_def VirtualOpenSelf_def chmodExecutable_def noAttributes_def
        Let_def goneFile_def liveFile_def)
  have start: "closedOnce liveFile"
    by (simp add: closedOnce_def closeCalls_def liveFile_def)
  have life: "performAll [OpVirtualOpenSelf shareWrite False noAttributes None,
       OpVirtualWrite [65] 3 (1, None), OpVirtualClose shareWrite, OpLink, OpUnlink, OpUnlink] liveFile
     = Returns () (goneFile\<lparr>size_f := 4, changeID := 8, backingCalls := [CallWriteAt [65] 3, CallClose]\<rparr>)"
    by (simp add: stateOf_def andThen_def VirtualOpenSelf_def acquireShareAccessLocked_def
        VirtualWrite_def lockMutatingData_def VirtualClose_def releaseReferencesLocked_def
        Link_def Unlink_def shareWrite_def noAttributes_def Let_def goneFile_def liveFile_def)
  from released_once_then_stale [where f = liveFile and count = 1 and ?f1.0 = goneFile
      and g = goneFile and shareAccess = shareWrite and attributes = noAttributes and resp = None
      and xs = "[OpVirtualRead 4 3 ([], None), OpLink,
         OpVirtualSetAttributes chmodExecutable noAttributes None,
         OpVirtualOpenSelf shareWrite False noAttributes None]"
      and g' = "goneFile\<lparr>isExecutable := True, changeID := 8\<rparr>"
      and h = liveFile
      and ys = "[OpVirtualOpenSelf shareWrite False noAttributes None,
         OpVirtualWrite [65] 3 (1, None), OpVirtualClose shareWrite, OpLink, OpUnlink, OpUnlink]"
      and h' = "goneFile\<lparr>size_f := 4, changeID := 8, backingCalls := [CallWriteAt [65] 3, CallClose]\<rparr>"]
    release zero nil unfrozen after start life
  show ?thesis by blast
qed

theorem read_after_release_counterexample:
  "Unlink liveFile = Returns () goneFile \<and> referenceCount goneFile = 0 \<and>
   VirtualRead goneFile 4 3 ([], None) = Returns (0, True, StatusOK) goneFile \<and>
   VirtualRead goneFile 4 0 ([65, 66, 67], None) = Panics NilPointerDereference"
  by (simp add: Unlink_def releaseReferencesLocked_def VirtualRead_def BoundReadToFileSize_def
      liveFile_def goneFile_def)

subsection \<open>Freezing and mutating goroutines\<close>























end
